theory Spec2Isabelle
  imports Complex_Main "HOL-Library.Word" "HOL-Library.Signed_Division"
begin

section \<open>kminion: the service core of package minion (src/minion/service.go)\<close>

text \<open>
  A shallow embedding of \<^verbatim>\<open>service.go\<close>: the histogram bucket sizing, the end-to-end
  metric callbacks, the compatibility check and the key/value cache with its sleeping
  expiry goroutines. Go values are modelled as follows.

  \<^item> \<^verbatim>\<open>time.Duration\<close> is an \<^verbatim>\<open>int64\<close> count of nanoseconds: a \<open>64 word\<close>, read with
    \<open>sint\<close>. Go's \<^verbatim>\<open>/\<close> and \<^verbatim>\<open>%\<close> on integers truncate towards zero: \<open>sdiv\<close>, \<open>smod\<close>.
  \<^item> A \<^verbatim>\<open>float64\<close> that is finite is modelled by the real number it denotes. The only
    floating-point operations on the path of the bucket sizer are the conversion of an
    integer below \<open>2^53\<close>, \<^verbatim>\<open>math.Logb\<close>, and the multiplication by \<open>2\<close>; all three are exact
    in IEEE-754 binary64 for the values that occur, so the real numbers below are the
    values the program holds.
  \<^item> A panic or a returned error is the left injection of a sum.
\<close>

subsection \<open>Durations and errors\<close>

type_synonym Duration = "64 word"

datatype error =
    Panic string
  | Error string
  | Wrapped string error

text \<open>\<^verbatim>\<open>func (d Duration) Milliseconds() int64 { return int64(d) / 1e6 }\<close>\<close>

definition Milliseconds :: "Duration \<Rightarrow> int" where
  "Milliseconds d = sint d sdiv 1000000"

text \<open>
  \<^verbatim>\<open>func (d Duration) Seconds() float64 { sec := d / Second; nsec := d % Second;
  return float64(sec) + float64(nsec)/1e9 }\<close>, here with the division and the sum taken in
  the reals (the float64 result is this number rounded).
\<close>

definition Seconds :: "Duration \<Rightarrow> real" where
  "Seconds d =
     real_of_int (sint d sdiv 1000000000) + real_of_int (sint d smod 1000000000) / 1000000000"

subsection \<open>The bucket sizer\<close>

text \<open>
  The float64 values that \<^verbatim>\<open>math.Logb\<close> returns for an argument converted from an integer:
  minus infinity (for \<open>0\<close>) or a finite number.
\<close>

datatype float64 = NegInf | Finite real

text \<open>
  The binary exponent of a positive integer: the position of its highest set bit. For a
  float64 that holds a positive integer exactly, this is what \<^verbatim>\<open>math.Logb\<close> reads from the
  exponent field.
\<close>

fun ilogb :: "nat \<Rightarrow> nat" where
  "ilogb n = (if n < 2 then 0 else Suc (ilogb (n div 2)))"

declare ilogb.simps [simp del]

text \<open>
  \<^verbatim>\<open>math.Logb(float64(n))\<close> for an \<^verbatim>\<open>int64\<close> \<open>n\<close>. The conversion to float64 is exact when
  \<open>\<bar>n\<bar> < 2^53\<close>; the callers below pass a quotient of magnitude below \<open>2^40\<close>
  (lemma \<open>abs_quotient_less\<close>). \<^verbatim>\<open>Logb\<close> returns \<^verbatim>\<open>-Inf\<close> for zero and the binary exponent
  of the magnitude otherwise (the sign bit is masked out).
\<close>

definition Logb_float64 :: "int \<Rightarrow> float64" where
  "Logb_float64 n = (if n = 0 then NegInf else Finite (real (ilogb (nat \<bar>n\<bar>))))"

definition trunc_toward_zero :: "real \<Rightarrow> int" where
  "trunc_toward_zero x = (if 0 \<le> x then \<lfloor>x\<rfloor> else \<lceil>x\<rceil>)"

text \<open>
  The conversion \<^verbatim>\<open>int(f)\<close> of a float64 to Go's \<^verbatim>\<open>int\<close>, which has 64 bits on the
  64-bit platforms. A finite value in range is truncated towards zero. For a value that
  does not fit, the Go specification leaves the result to the implementation; the amd64
  and arm64 compilers yield the smallest int64 for minus infinity, which is what is
  modelled here.
\<close>

definition int_of_float64 :: "float64 \<Rightarrow> 64 word" where
  "int_of_float64 f =
     (case f of
        NegInf \<Rightarrow> - 9223372036854775808
      | Finite x \<Rightarrow>
          (if - 9223372036854775808 \<le> trunc_toward_zero x
              \<and> trunc_toward_zero x \<le> 9223372036854775807
           then word_of_int (trunc_toward_zero x)
           else - 9223372036854775808))"

text \<open>
  The loop of \<^verbatim>\<open>prometheus.ExponentialBuckets\<close>:
  \<^verbatim>\<open>for i := range buckets { buckets[i] = start; start *= factor }\<close>.
\<close>

fun buckets_loop :: "nat \<Rightarrow> real \<Rightarrow> real \<Rightarrow> real list" where
  "buckets_loop 0 start factor = []"
| "buckets_loop (Suc n) start factor = start # buckets_loop n (start * factor) factor"

text \<open>
  \<^verbatim>\<open>prometheus.ExponentialBuckets(start, factor, count)\<close> panics unless \<open>count \<ge> 1\<close>,
  \<open>start > 0\<close> and \<open>factor > 1\<close>, in this order.
\<close>

definition ExponentialBuckets :: "real \<Rightarrow> real \<Rightarrow> int \<Rightarrow> error + real list" where
  "ExponentialBuckets start factor count =
     (if count < 1 then Inl (Panic ''ExponentialBuckets needs a positive count'')
      else if start \<le> 0 then Inl (Panic ''ExponentialBuckets needs a positive start value'')
      else if factor \<le> 1 then Inl (Panic ''ExponentialBuckets needs a factor greater than 1'')
      else Inr (buckets_loop (nat count) start factor))"

text \<open>
  The float64 constant written \<^verbatim>\<open>0.005\<close> in the source: the binary64 number nearest to
  \<open>5/1000\<close>, which is \<open>5764607523034235 / 2^60\<close> (\<^verbatim>\<open>0x1.47ae147ae147bp-8\<close>).
\<close>

definition float64_0_005 :: real where
  "float64_0_005 = 5764607523034235 / 2 ^ 60"

text \<open>
  The local \<^verbatim>\<open>count\<close> of \<^verbatim>\<open>createHistogramBuckets\<close>:
  \<^verbatim>\<open>latencyCount := math.Logb(float64(maxLatency.Milliseconds() / 10))\<close>,
  \<^verbatim>\<open>count := int(latencyCount) + 3\<close>. The addition is Go's wrapping 64-bit addition.
\<close>

definition bucketCount :: "Duration \<Rightarrow> int" where
  "bucketCount maxLatency =
     (let latencyCount = Logb_float64 (Milliseconds maxLatency sdiv 10)
      in sint (int_of_float64 latencyCount + 3))"

definition createHistogramBuckets :: "Duration \<Rightarrow> error + real list" where
  "createHistogramBuckets maxLatency =
     ExponentialBuckets float64_0_005 2 (bucketCount maxLatency)"

subsection \<open>Configuration and the metrics sink\<close>

text \<open>
  The fields of \<^verbatim>\<open>Config\<close> that \<^verbatim>\<open>service.go\<close> reads, named by their path
  (\<^verbatim>\<open>Cfg.EndToEnd.Consumer.RoundtripSla\<close> and so on).
\<close>

record Config =
  LogDirs_Enabled :: bool
  EndToEnd_Enabled :: bool
  EndToEnd_Producer_AckSla :: Duration
  EndToEnd_Consumer_RoundtripSla :: Duration
  EndToEnd_Consumer_CommitSla :: Duration
  ConsumerGroups_ScrapeMode :: string

text \<open>
  The metrics sink at its interface: a counter is the number of \<^verbatim>\<open>Inc()\<close> calls it has
  received, a histogram is its bucket boundaries and the values it has been passed by
  \<^verbatim>\<open>Observe\<close>, in order.
\<close>

type_synonym Counter = nat

record Histogram =
  Buckets :: "real list"
  observations :: "real list"

definition Inc :: "Counter \<Rightarrow> Counter" where
  "Inc c = Suc c"

definition Observe :: "Histogram \<Rightarrow> real \<Rightarrow> Histogram" where
  "Observe h v = h\<lparr>observations := observations h @ [v]\<rparr>"

subsection \<open>The service\<close>

text \<open>
  The \<^verbatim>\<open>Service\<close> struct. The metric fields are interface values that stay \<^verbatim>\<open>nil\<close> unless
  \<^verbatim>\<open>NewService\<close> runs with \<^verbatim>\<open>EndToEnd.Enabled\<close>: \<open>None\<close> is \<^verbatim>\<open>nil\<close>. The logger, the lock,
  the request group, the compiled regular expressions and the handles of the Kafka
  client and of the storage are opaque here and no function below reads them.
\<close>

record 'v Service =
  Cfg :: Config
  cache :: "string \<rightharpoonup> 'v"
  minionID :: string
  lastRoundtripTimestamp :: real
  endToEndMessagesProduced :: "Counter option"
  endToEndMessagesAcked :: "Counter option"
  endToEndMessagesReceived :: "Counter option"
  endToEndMessagesCommitted :: "Counter option"
  endToEndAckLatency :: "Histogram option"
  endToEndRoundtripLatency :: "Histogram option"
  endToEndCommitLatency :: "Histogram option"

definition nilPointerPanic :: error where
  "nilPointerPanic = Panic ''invalid memory address or nil pointer dereference''"

text \<open>The closure \<^verbatim>\<open>makeHistogram\<close> of \<^verbatim>\<open>NewService\<close>.\<close>

definition makeHistogram :: "Duration \<Rightarrow> error + Histogram" where
  "makeHistogram maxLatency =
     (case createHistogramBuckets maxLatency of
        Inl e \<Rightarrow> Inl e
      | Inr bs \<Rightarrow> Inr \<lparr>Buckets = bs, observations = []\<rparr>)"

text \<open>
  \<^verbatim>\<open>NewService\<close>. The outcome of \<^verbatim>\<open>newStorage\<close> (an error or none) and the string that
  \<^verbatim>\<open>uuid.NewString()\<close> returns are parameters.
\<close>

definition NewService :: "Config \<Rightarrow> error option \<Rightarrow> string \<Rightarrow> error + 'v Service" where
  "NewService cfg storageErr uuid =
     (case storageErr of
        Some err \<Rightarrow> Inl (Wrapped ''failed to create storage'' err)
      | None \<Rightarrow>
          (let service =
                 \<lparr>Cfg = cfg, cache = Map.empty, minionID = uuid, lastRoundtripTimestamp = 0,
                  endToEndMessagesProduced = None, endToEndMessagesAcked = None,
                  endToEndMessagesReceived = None, endToEndMessagesCommitted = None,
                  endToEndAckLatency = None, endToEndRoundtripLatency = None,
                  endToEndCommitLatency = None\<rparr>
           in if EndToEnd_Enabled cfg then
                (case makeHistogram (EndToEnd_Producer_AckSla cfg) of
                   Inl e \<Rightarrow> Inl e
                 | Inr ack \<Rightarrow>
                (case makeHistogram (EndToEnd_Consumer_RoundtripSla cfg) of
                   Inl e \<Rightarrow> Inl e
                 | Inr roundtrip \<Rightarrow>
                (case makeHistogram (EndToEnd_Consumer_CommitSla cfg) of
                   Inl e \<Rightarrow> Inl e
                 | Inr commit \<Rightarrow>
                     Inr (service
                          \<lparr>endToEndMessagesProduced := Some 0,
                           endToEndMessagesAcked := Some 0,
                           endToEndMessagesReceived := Some 0,
                           endToEndMessagesCommitted := Some 0,
                           endToEndAckLatency := Some ack,
                           endToEndRoundtripLatency := Some roundtrip,
                           endToEndCommitLatency := Some commit\<rparr>))))
              else Inr service))"

subsection \<open>The compatibility check\<close>

text \<open>
  The set of API versions the broker reports (\<^verbatim>\<open>kversion.Versions\<close>): for each API key
  the highest version, if the broker has the key.
\<close>

type_synonym Versions = "int \<rightharpoonup> int"

definition HasKey :: "Versions \<Rightarrow> int \<Rightarrow> bool" where
  "HasKey versions k = (versions k \<noteq> None)"

text \<open>\<^verbatim>\<open>kmsg.NewDescribeLogDirsRequest().Key()\<close>: the Kafka API key of DescribeLogDirs.\<close>

definition DescribeLogDirs_Key :: int where
  "DescribeLogDirs_Key = 35"

text \<open>
  \<^verbatim>\<open>ensureCompatibility\<close>. The outcome of \<^verbatim>\<open>s.GetAPIVersions(ctx)\<close> under its 15 second
  deadline, already read by \<^verbatim>\<open>kversion.FromApiVersionsResponse\<close>, is the parameter
  \<open>versionsRes\<close>. The result is the returned error (\<open>None\<close> is \<^verbatim>\<open>nil\<close>) and the service
  after the call.
\<close>

definition ensureCompatibility ::
  "error + Versions \<Rightarrow> 'v Service \<Rightarrow> error option \<times> 'v Service" where
  "ensureCompatibility versionsRes s =
     (case versionsRes of
        Inl err \<Rightarrow> (Some (Wrapped ''kafka api versions couldn't be fetched'' err), s)
      | Inr versions \<Rightarrow>
          (if LogDirs_Enabled (Cfg s) then
             (let isSupported = HasKey versions DescribeLogDirs_Key
              in if \<not> isSupported
                 then (None, s\<lparr>Cfg := (Cfg s)\<lparr>LogDirs_Enabled := False\<rparr>\<rparr>)
                 else (None, s))
           else (None, s)))"

text \<open>
  \<^verbatim>\<open>Start\<close>. The goroutines it starts run code of other files; the model returns which
  ones are started. The constant \<^verbatim>\<open>ConsumerGroupScrapeModeOffsetsTopic\<close> is declared in
  another file and is the parameter \<open>offsetsTopicMode\<close>.
\<close>

datatype task = StartConsumingOffsets | InitEndToEnd

definition Start ::
  "error + Versions \<Rightarrow> string \<Rightarrow> 'v Service \<Rightarrow> error option \<times> 'v Service \<times> task list" where
  "Start versionsRes offsetsTopicMode s =
     (case ensureCompatibility versionsRes s of
        (Some err, s') \<Rightarrow>
          (Some (Wrapped ''failed to check feature compatibility against Kafka'' err), s', [])
      | (None, s') \<Rightarrow>
          (None, s',
           (if ConsumerGroups_ScrapeMode (Cfg s') = offsetsTopicMode
            then [StartConsumingOffsets] else [])
           @ (if EndToEnd_Enabled (Cfg s') then [InitEndToEnd] else [])))"

subsection \<open>The end-to-end callbacks\<close>

text \<open>
  Each callback returns the service after the call, or the panic of a method call on a
  \<^verbatim>\<open>nil\<close> metric.
\<close>

definition onAck :: "'v Service \<Rightarrow> 32 word \<Rightarrow> Duration \<Rightarrow> error + 'v Service" where
  "onAck s partitionId duration =
     (case endToEndMessagesAcked s of
        None \<Rightarrow> Inl nilPointerPanic
      | Some acked \<Rightarrow>
          (case endToEndAckLatency s of
             None \<Rightarrow> Inl nilPointerPanic
           | Some latency \<Rightarrow>
               Inr (s\<lparr>endToEndMessagesAcked := Some (Inc acked),
                      endToEndAckLatency := Some (Observe latency (Seconds duration))\<rparr>)))"

definition onRoundtrip :: "'v Service \<Rightarrow> 32 word \<Rightarrow> Duration \<Rightarrow> error + 'v Service" where
  "onRoundtrip s partitionId duration =
     (if sint (EndToEnd_Consumer_RoundtripSla (Cfg s)) < sint duration then Inr s
      else
        (case endToEndMessagesReceived s of
           None \<Rightarrow> Inl nilPointerPanic
         | Some received \<Rightarrow>
             (case endToEndRoundtripLatency s of
                None \<Rightarrow> Inl nilPointerPanic
              | Some latency \<Rightarrow>
                  Inr (s\<lparr>endToEndMessagesReceived := Some (Inc received),
                         endToEndRoundtripLatency :=
                           Some (Observe latency (Seconds duration))\<rparr>))))"

definition onOffsetCommit :: "'v Service \<Rightarrow> 32 word \<Rightarrow> Duration \<Rightarrow> error + 'v Service" where
  "onOffsetCommit s partitionId duration =
     (case endToEndCommitLatency s of
        None \<Rightarrow> Inl nilPointerPanic
      | Some latency \<Rightarrow>
          (let s1 = s\<lparr>endToEndCommitLatency := Some (Observe latency (Seconds duration))\<rparr>
           in if sint (EndToEnd_Consumer_CommitSla (Cfg s)) < sint duration then Inr s1
              else
                (case endToEndMessagesCommitted s1 of
                   None \<Rightarrow> Inl nilPointerPanic
                 | Some committed \<Rightarrow>
                     Inr (s1\<lparr>endToEndMessagesCommitted := Some (Inc committed)\<rparr>))))"

subsection \<open>The cache and its expiry goroutines\<close>

text \<open>
  \<^verbatim>\<open>getCachedItem\<close> returns the pair \<^verbatim>\<open>(val, exists)\<close>: \<open>Some val\<close> when the key is in the
  map, \<open>None\<close> otherwise. Every function of the cache holds \<^verbatim>\<open>cacheLock\<close> for its whole
  body, so each is one atomic step.
\<close>

definition getCachedItem :: "string \<Rightarrow> 'v Service \<Rightarrow> 'v option" where
  "getCachedItem key s = cache s key"

definition deleteCachedItem :: "string \<Rightarrow> 'v Service \<Rightarrow> 'v Service" where
  "deleteCachedItem key s = s\<lparr>cache := (cache s)(key := None)\<rparr>"

text \<open>
  The running program: the service, a clock in nanoseconds, and the goroutines that
  \<^verbatim>\<open>setCachedItem\<close> has started and that still sleep, each with the time at which its
  \<^verbatim>\<open>time.Sleep(timeout)\<close> ends and the key it will then delete.
\<close>

record 'v World =
  svc :: "'v Service"
  now :: nat
  sleeping :: "(nat \<times> string) list"

text \<open>
  \<^verbatim>\<open>setCachedItem\<close> starts \<^verbatim>\<open>go func() { time.Sleep(timeout); s.deleteCachedItem(key) }()\<close>
  and stores the value. \<^verbatim>\<open>time.Sleep\<close> returns at once for a duration that is not
  positive.
\<close>

definition setCachedItem :: "string \<Rightarrow> 'v \<Rightarrow> Duration \<Rightarrow> 'v World \<Rightarrow> 'v World" where
  "setCachedItem key val timeout w =
     w\<lparr>sleeping := sleeping w @ [(now w + nat (sint timeout), key)],
       svc := (svc w)\<lparr>cache := (cache (svc w))(key \<mapsto> val)\<rparr>\<rparr>"

text \<open>
  The clock moves to \<open>t\<close>: every goroutine whose sleep has ended by then runs its
  \<^verbatim>\<open>deleteCachedItem\<close>; the others keep sleeping.
\<close>

definition advance :: "nat \<Rightarrow> 'v World \<Rightarrow> 'v World" where
  "advance t w =
     w\<lparr>now := max (now w) t,
       sleeping := filter (\<lambda>g. \<not> fst g \<le> t) (sleeping w),
       svc := fold (\<lambda>g. deleteCachedItem (snd g)) (filter (\<lambda>g. fst g \<le> t) (sleeping w)) (svc w)\<rparr>"

text \<open>
  The states the program can be in: \<^verbatim>\<open>NewService\<close> returned a service, and then any of
  the functions of \<^verbatim>\<open>service.go\<close> ran to their end, or time passed.
\<close>

inductive reachable :: "'v World \<Rightarrow> bool" where
  reach_new:
    "NewService cfg storageErr uuid = Inr s
     \<Longrightarrow> reachable \<lparr>svc = s, now = 0, sleeping = []\<rparr>"
| reach_start:
    "reachable w \<Longrightarrow> Start versionsRes mode (svc w) = (err, s', tasks)
     \<Longrightarrow> reachable (w\<lparr>svc := s'\<rparr>)"
| reach_compat:
    "reachable w \<Longrightarrow> ensureCompatibility versionsRes (svc w) = (err, s')
     \<Longrightarrow> reachable (w\<lparr>svc := s'\<rparr>)"
| reach_set:
    "reachable w \<Longrightarrow> reachable (setCachedItem key val timeout w)"
| reach_delete:
    "reachable w \<Longrightarrow> reachable (w\<lparr>svc := deleteCachedItem key (svc w)\<rparr>)"
| reach_time:
    "reachable w \<Longrightarrow> reachable (advance t w)"
| reach_ack:
    "reachable w \<Longrightarrow> onAck (svc w) partitionId duration = Inr s'
     \<Longrightarrow> reachable (w\<lparr>svc := s'\<rparr>)"
| reach_roundtrip:
    "reachable w \<Longrightarrow> onRoundtrip (svc w) partitionId duration = Inr s'
     \<Longrightarrow> reachable (w\<lparr>svc := s'\<rparr>)"
| reach_commit:
    "reachable w \<Longrightarrow> onOffsetCommit (svc w) partitionId duration = Inr s'
     \<Longrightarrow> reachable (w\<lparr>svc := s'\<rparr>)"

text \<open>The counters and histograms that the callbacks use are not \<^verbatim>\<open>nil\<close>.\<close>

definition metricsRegistered :: "'v Service \<Rightarrow> bool" where
  "metricsRegistered s =
     (endToEndMessagesAcked s \<noteq> None \<and> endToEndMessagesReceived s \<noteq> None
      \<and> endToEndMessagesCommitted s \<noteq> None \<and> endToEndAckLatency s \<noteq> None
      \<and> endToEndRoundtripLatency s \<noteq> None \<and> endToEndCommitLatency s \<noteq> None)"

subsection \<open>A service with the end-to-end test enabled\<close>

text \<open>
  A configuration with an ack SLA and a roundtrip SLA of 5 seconds and a commit SLA of
  1 second, and the service that \<open>NewService\<close> returns for it (lemma
  \<open>NewService_example\<close>): the histograms have 11, 11 and 9 boundaries.
\<close>

definition exampleConfig :: Config where
  "exampleConfig =
     \<lparr>LogDirs_Enabled = True, EndToEnd_Enabled = True,
      EndToEnd_Producer_AckSla = 5000000000,
      EndToEnd_Consumer_RoundtripSla = 5000000000,
      EndToEnd_Consumer_CommitSla = 1000000000,
      ConsumerGroups_ScrapeMode = ''adminApi''\<rparr>"

definition exampleService :: "string Service" where
  "exampleService =
     \<lparr>Cfg = exampleConfig, cache = Map.empty, minionID = ''kminion-1'',
      lastRoundtripTimestamp = 0,
      endToEndMessagesProduced = Some 0, endToEndMessagesAcked = Some 0,
      endToEndMessagesReceived = Some 0, endToEndMessagesCommitted = Some 0,
      endToEndAckLatency =
        Some \<lparr>Buckets = buckets_loop 11 float64_0_005 2, observations = []\<rparr>,
      endToEndRoundtripLatency =
        Some \<lparr>Buckets = buckets_loop 11 float64_0_005 2, observations = []\<rparr>,
      endToEndCommitLatency =
        Some \<lparr>Buckets = buckets_loop 9 float64_0_005 2, observations = []\<rparr>\<rparr>"

section \<open>Properties of the bucket sizer\<close>

subsection \<open>The binary exponent\<close>

lemma ilogb_bounds: "0 < n \<Longrightarrow> 2 ^ ilogb n \<le> n \<and> n < 2 ^ Suc (ilogb n)"
proof (induction n rule: ilogb.induct)
  case (1 n)
  show ?case
  proof (cases "n < 2")
    case True
    with 1 have "n = 1" by simp
    then show ?thesis by (simp add: ilogb.simps)
  next
    case False
    then have pos: "0 < n div 2" by simp
    from 1(1)[OF False pos] have lo: "2 ^ ilogb (n div 2) \<le> n div 2"
      and hi: "n div 2 < 2 ^ Suc (ilogb (n div 2))" by simp_all
    have eq: "ilogb n = Suc (ilogb (n div 2))" using False by (subst ilogb.simps) simp
    from lo have "2 * 2 ^ ilogb (n div 2) \<le> n" by linarith
    moreover from hi have "n < 2 * 2 ^ Suc (ilogb (n div 2))" by linarith
    ultimately show ?thesis by (simp add: eq)
  qed
qed

lemma floor_log2_between:
  fixes x :: real
  assumes "2 ^ e \<le> x" "x < 2 ^ Suc e"
  shows "\<lfloor>log 2 x\<rfloor> = int e"
proof -
  have pos: "0 < x" using assms(1) by (rule less_le_trans[rotated]) simp
  have a: "2 powr real_of_int (int e) = (2::real) ^ e" by (simp add: powr_realpow)
  have b: "2 powr real_of_int (int e + 1) = (2::real) ^ Suc e"
    using powr_realpow[of 2 "Suc e"] by (simp add: add.commute)
  have "\<lfloor>log 2 x\<rfloor> = int e
          \<longleftrightarrow> 2 powr real_of_int (int e) \<le> x \<and> x < 2 powr real_of_int (int e + 1)"
    using pos by (intro floor_log_eq_powr_iff) simp_all
  then show ?thesis unfolding a b using assms by blast
qed

text \<open>
  \<open>ilogb\<close> is the floor of the binary logarithm, which is what \<^verbatim>\<open>math.Logb\<close> returns for a
  positive integer held exactly.
\<close>

lemma ilogb_floor_log: "0 < n \<Longrightarrow> int (ilogb n) = \<lfloor>log 2 (real n)\<rfloor>"
proof -
  assume "0 < n"
  then have "2 ^ ilogb n \<le> n" "n < 2 ^ Suc (ilogb n)" using ilogb_bounds[of n] by simp_all
  then have "(2::real) ^ ilogb n \<le> real n" "real n < 2 ^ Suc (ilogb n)"
    by (metis of_nat_le_iff of_nat_numeral of_nat_power, metis of_nat_less_iff of_nat_numeral of_nat_power)
  then show ?thesis by (simp add: floor_log2_between del: power_Suc)
qed

subsection \<open>The loop of ExponentialBuckets\<close>

lemma length_buckets_loop: "length (buckets_loop n s f) = n"
  by (induction n arbitrary: s) simp_all

lemma nth_buckets_loop: "i < n \<Longrightarrow> buckets_loop n s f ! i = s * f ^ i"
proof (induction n arbitrary: s i)
  case 0
  then show ?case by simp
next
  case (Suc n)
  then show ?case by (cases i) (simp_all add: mult.assoc)
qed

lemma sorted_buckets_loop:
  assumes "0 < s" "1 < f"
  shows "sorted_wrt (<) (buckets_loop n s f)"
proof -
  have "s * f ^ i < s * f ^ j" if "i < j" for i j
    using that assms by (simp add: power_strict_increasing)
  then show ?thesis
    by (simp add: sorted_wrt_iff_nth_less length_buckets_loop nth_buckets_loop)
qed

subsection \<open>The quotient of the milliseconds by ten\<close>

lemma sint_duration_bounds: "- (2 ^ 63) \<le> sint (d :: Duration)" "sint d < 2 ^ 63"
  using sint_ge[of d] sint_lt[of d] by simp_all

lemma abs_sdiv_int: "\<bar>k sdiv l\<bar> = \<bar>k\<bar> div \<bar>l\<bar>" for k l :: int
proof -
  have "0 \<le> \<bar>k\<bar> div \<bar>l\<bar>" by (simp add: pos_imp_zdiv_nonneg_iff div_int_pos_iff)
  then show ?thesis
    by (cases "k = 0"; cases "l = 0") (simp_all add: signed_divide_int_def abs_mult abs_sgn_eq)
qed

lemma abs_quotient: "\<bar>Milliseconds d sdiv 10\<bar> = \<bar>sint d\<bar> div 10000000"
proof -
  have "\<bar>Milliseconds d sdiv 10\<bar> = \<bar>sint d\<bar> div 1000000 div 10"
    by (simp add: abs_sdiv_int Milliseconds_def)
  also have "\<dots> = \<bar>sint d\<bar> div 10000000"
    by (simp add: div_mult2_eq[symmetric])
  finally show ?thesis .
qed

text \<open>
  The quotient is below \<open>2^40\<close> in magnitude for every duration, so its conversion to
  float64 is exact.
\<close>

lemma abs_quotient_less: "\<bar>Milliseconds d sdiv 10\<bar> < 2 ^ 40"
proof -
  have "\<bar>sint d\<bar> \<le> 2 ^ 63" using sint_duration_bounds[of d] by simp
  then have "\<bar>sint d\<bar> div 10000000 \<le> 2 ^ 63 div 10000000" by (rule zdiv_mono1) simp
  then show ?thesis unfolding abs_quotient by simp
qed

lemma quotient_nonneg:
  assumes "0 \<le> sint (d::Duration)"
  shows "Milliseconds d sdiv 10 = sint d div 10000000"
proof -
  have m: "Milliseconds d = sint d div 1000000"
    using assms by (simp add: Milliseconds_def signed_divide_int_def sgn_if)
  have "0 \<le> sint d div 1000000" using assms by simp
  then have "Milliseconds d sdiv 10 = sint d div 1000000 div 10"
    unfolding m by (simp add: signed_divide_int_def sgn_if)
  also have "\<dots> = sint d div 10000000" by (simp add: div_mult2_eq[symmetric])
  finally show ?thesis .
qed

lemma quotient_ge:
  assumes "10000000 * k \<le> sint (d::Duration)" "0 \<le> k"
  shows "k \<le> Milliseconds d sdiv 10"
proof -
  have nn: "0 \<le> sint d" using assms by linarith
  have "k = (10000000 * k) div 10000000" by simp
  also have "\<dots> \<le> sint d div 10000000" using assms(1) by (rule zdiv_mono1) simp
  finally show ?thesis using quotient_nonneg[OF nn] by simp
qed

lemma ilogb_quotient_less:
  assumes "Milliseconds d sdiv 10 \<noteq> 0"
  shows "ilogb (nat \<bar>Milliseconds d sdiv 10\<bar>) < 40"
proof -
  let ?n = "nat \<bar>Milliseconds d sdiv 10\<bar>"
  have pos: "0 < ?n" using assms by simp
  have "?n < 2 ^ 40" using abs_quotient_less[of d] by (simp add: nat_less_iff)
  with ilogb_bounds[OF pos] have lt: "(2::nat) ^ ilogb ?n < 2 ^ 40" by linarith
  show ?thesis
  proof (rule ccontr)
    assume "\<not> ilogb ?n < 40"
    then have "40 \<le> ilogb ?n" by simp
    then have "(2::nat) ^ 40 \<le> 2 ^ ilogb ?n" by (rule power_increasing) simp
    with lt show False by linarith
  qed
qed

lemma duration_less_next_power:
  assumes "0 \<le> sint (d::Duration)" "Milliseconds d sdiv 10 \<noteq> 0"
  shows "sint d < 10000000 * 2 ^ Suc (ilogb (nat \<bar>Milliseconds d sdiv 10\<bar>))"
proof -
  let ?q = "Milliseconds d sdiv 10"
  let ?e = "ilogb (nat \<bar>?q\<bar>)"
  have q: "?q = sint d div 10000000" by (rule quotient_nonneg[OF assms(1)])
  have qpos: "0 < ?q" using assms q by (simp add: pos_imp_zdiv_nonneg_iff less_le)
  then have "nat \<bar>?q\<bar> < 2 ^ Suc ?e" using ilogb_bounds[of "nat \<bar>?q\<bar>"] by simp
  then have "?q < 2 ^ Suc ?e" using qpos by (simp add: nat_less_iff)
  then have le: "?q + 1 \<le> 2 ^ Suc ?e" by simp
  have "sint d = 10000000 * ?q + sint d mod 10000000" unfolding q by simp
  also have "\<dots> < 10000000 * (?q + 1)"
    using pos_mod_bound[of 10000000 "sint d"] by simp
  also have "\<dots> \<le> 10000000 * 2 ^ Suc ?e" using le by simp
  finally show ?thesis .
qed

subsection \<open>The count and the result\<close>

lemma bucketCount_nonzero:
  assumes "Milliseconds d sdiv 10 \<noteq> 0"
  shows "bucketCount d = int (ilogb (nat \<bar>Milliseconds d sdiv 10\<bar>)) + 3"
proof -
  let ?e = "ilogb (nat \<bar>Milliseconds d sdiv 10\<bar>)"
  have e: "?e < 40" by (rule ilogb_quotient_less[OF assms])
  have t: "trunc_toward_zero (real ?e) = int ?e" by (simp add: trunc_toward_zero_def)
  have conv: "int_of_float64 (Finite (real ?e)) = word_of_int (int ?e)"
    using e by (simp add: int_of_float64_def t)
  have "sint (word_of_int (int ?e) :: 64 word) = int ?e"
    using e by (simp add: signed_of_nat signed_take_bit_int_eq_self)
  then have "sint (word_of_int (int ?e) + 3 :: 64 word) = int ?e + 3"
    using e by (simp add: sint_word_ariths signed_take_bit_int_eq_self)
  then show ?thesis
    using assms by (simp add: bucketCount_def Logb_float64_def conv)
qed

text \<open>
  When the quotient is zero, that is for every duration strictly between \<open>-10ms\<close> and
  \<open>10ms\<close>, the count is the smallest int64 plus three.
\<close>

lemma bucketCount_zero:
  assumes "Milliseconds d sdiv 10 = 0"
  shows "bucketCount d = - 9223372036854775805"
  using assms by (simp add: bucketCount_def Logb_float64_def int_of_float64_def)

lemma float64_0_005_pos: "0 < float64_0_005"
  by (simp add: float64_0_005_def)

text \<open>
  The constant is within half a unit in the last place (\<open>2^-61\<close>) of \<open>5/1000\<close>, and not
  below it.
\<close>

lemma float64_0_005_nearest:
  "\<bar>float64_0_005 - 5 / 1000\<bar> \<le> 1 / 2 ^ 61" "5 / 1000 \<le> float64_0_005"
  by (simp_all add: float64_0_005_def)

lemma createHistogramBuckets_nonzero:
  assumes "Milliseconds d sdiv 10 \<noteq> 0"
  shows "createHistogramBuckets d =
    Inr (buckets_loop (ilogb (nat \<bar>Milliseconds d sdiv 10\<bar>) + 3) float64_0_005 2)"
proof -
  have "nat (int (ilogb (nat \<bar>Milliseconds d sdiv 10\<bar>)) + 3)
          = ilogb (nat \<bar>Milliseconds d sdiv 10\<bar>) + 3"
    by simp
  then show ?thesis
    using float64_0_005_pos
    by (simp add: createHistogramBuckets_def ExponentialBuckets_def bucketCount_nonzero[OF assms])
qed

lemma createHistogramBuckets_zero:
  assumes "Milliseconds d sdiv 10 = 0"
  shows "createHistogramBuckets d = Inl (Panic ''ExponentialBuckets needs a positive count'')"
  by (simp add: createHistogramBuckets_def ExponentialBuckets_def bucketCount_zero[OF assms])

text \<open>
  Every boundary is the mantissa of the constant \<^verbatim>\<open>0.005\<close> times a power of two with an
  exponent between \<open>-60\<close> and \<open>-19\<close>: a binary64 number, so no doubling rounds.
\<close>

lemma createHistogramBuckets_values:
  assumes "createHistogramBuckets d = Inr bs" "i < length bs"
  shows "bs ! i = 5764607523034235 * 2 ^ i / 2 ^ 60 \<and> i < 42"
proof -
  let ?q = "Milliseconds d sdiv 10"
  have nz: "?q \<noteq> 0"
    using assms(1) createHistogramBuckets_zero[of d] by auto
  have bs: "bs = buckets_loop (ilogb (nat \<bar>?q\<bar>) + 3) float64_0_005 2"
    using assms(1) createHistogramBuckets_nonzero[OF nz] by simp
  have i: "i < ilogb (nat \<bar>?q\<bar>) + 3" using assms(2) by (simp add: bs length_buckets_loop)
  then have "bs ! i = float64_0_005 * 2 ^ i" unfolding bs by (rule nth_buckets_loop)
  moreover have "i < 42" using i ilogb_quotient_less[OF nz] by simp
  ultimately show ?thesis by (simp add: float64_0_005_def)
qed

text \<open>
  Claim C1. For every \<open>maxLatency\<close> of at least 20 milliseconds, \<open>createHistogramBuckets\<close>
  returns a sequence that is strictly increasing, starts at the constant \<^verbatim>\<open>0.005\<close>, in
  which every element after the first is exactly twice its predecessor, and whose last
  element is at least \<open>maxLatency\<close> in seconds (the nanoseconds divided by \<open>10^9\<close>).
\<close>

theorem createHistogramBuckets_exponential:
  assumes "20000000 \<le> sint maxLatency"
  shows "\<exists>bs. createHistogramBuckets maxLatency = Inr bs \<and> bs \<noteq> []
           \<and> sorted_wrt (<) bs
           \<and> hd bs = float64_0_005
           \<and> (\<forall>i. Suc i < length bs \<longrightarrow> bs ! Suc i = 2 * bs ! i)
           \<and> real_of_int (sint maxLatency) / 1000000000 \<le> last bs"
proof -
  let ?q = "Milliseconds maxLatency sdiv 10"
  let ?e = "ilogb (nat \<bar>?q\<bar>)"
  let ?bs = "buckets_loop (?e + 3) float64_0_005 2"
  have "2 \<le> ?q" using quotient_ge[of 2 maxLatency] assms by simp
  then have nz: "?q \<noteq> 0" by simp
  have nn: "0 \<le> sint maxLatency" using assms by simp
  have run: "createHistogramBuckets maxLatency = Inr ?bs"
    by (rule createHistogramBuckets_nonzero[OF nz])
  have len: "length ?bs = ?e + 3" by (rule length_buckets_loop)
  then have ne: "?bs \<noteq> []" by auto
  have srt: "sorted_wrt (<) ?bs"
    by (rule sorted_buckets_loop) (simp_all add: float64_0_005_pos)
  have first: "hd ?bs = float64_0_005"
    using ne by (simp add: hd_conv_nth nth_buckets_loop)
  have dbl: "\<forall>i. Suc i < length ?bs \<longrightarrow> ?bs ! Suc i = 2 * ?bs ! i"
    by (simp add: len nth_buckets_loop)
  have lst: "last ?bs = float64_0_005 * 2 ^ (?e + 2)"
    using ne by (simp add: last_conv_nth len nth_buckets_loop)
  have "sint maxLatency < 10000000 * 2 ^ Suc ?e"
    by (rule duration_less_next_power[OF nn nz])
  then have "real_of_int (sint maxLatency) < real_of_int (10000000 * 2 ^ Suc ?e)"
    by (simp only: of_int_less_iff)
  then have "real_of_int (sint maxLatency) / 1000000000 < (5 / 1000) * 2 ^ (?e + 2)"
    by simp
  also have "\<dots> \<le> float64_0_005 * 2 ^ (?e + 2)"
    using float64_0_005_nearest(2) by (simp add: mult_right_mono)
  finally have "real_of_int (sint maxLatency) / 1000000000 \<le> last ?bs"
    unfolding lst by simp
  with run ne srt first dbl show ?thesis by blast
qed

theorem createHistogramBuckets_exponential_witness:
  "20000000 \<le> sint (25000000 :: Duration)
   \<and> (\<exists>bs. createHistogramBuckets 25000000 = Inr bs \<and> bs \<noteq> []
           \<and> sorted_wrt (<) bs
           \<and> hd bs = float64_0_005
           \<and> (\<forall>i. Suc i < length bs \<longrightarrow> bs ! Suc i = 2 * bs ! i)
           \<and> real_of_int (sint (25000000 :: Duration)) / 1000000000 \<le> last bs)"
proof -
  have h: "20000000 \<le> sint (25000000 :: Duration)" by simp
  show ?thesis using h createHistogramBuckets_exponential[OF h] by blast
qed

text \<open>
  Claim C2 does not hold of the code: there is no clamp, and the zero quotient is a case
  the code misses. For every \<open>maxLatency\<close> strictly between -10 and 10 milliseconds (in
  particular for every non-negative one below 10 milliseconds) the quotient of the
  milliseconds by ten is \<open>0\<close>, \<^verbatim>\<open>math.Logb(0)\<close> is minus infinity, the count is the
  smallest int64 plus three, which is negative, and \<^verbatim>\<open>prometheus.ExponentialBuckets\<close>
  panics instead of returning a sequence.
\<close>

theorem createHistogramBuckets_below_10ms_panics:
  assumes "- 10000000 < sint maxLatency" "sint maxLatency < 10000000"
  shows "bucketCount maxLatency = - 9223372036854775805
       \<and> createHistogramBuckets maxLatency
           = Inl (Panic ''ExponentialBuckets needs a positive count'')"
proof -
  have "\<bar>sint maxLatency\<bar> < 10000000" using assms by linarith
  then have "\<bar>sint maxLatency\<bar> div 10000000 = 0" by simp
  then have "\<bar>Milliseconds maxLatency sdiv 10\<bar> = 0" unfolding abs_quotient .
  then have z: "Milliseconds maxLatency sdiv 10 = 0" by simp
  show ?thesis using bucketCount_zero[OF z] createHistogramBuckets_zero[OF z] by simp
qed

text \<open>The instance at 5 milliseconds, a duration strictly below 20 milliseconds.\<close>

theorem createHistogramBuckets_below_10ms_panics_witness:
  "- 10000000 < sint (5000000 :: Duration)
   \<and> sint (5000000 :: Duration) < 10000000
   \<and> sint (5000000 :: Duration) < 20000000
   \<and> bucketCount 5000000 = - 9223372036854775805
   \<and> createHistogramBuckets 5000000
       = Inl (Panic ''ExponentialBuckets needs a positive count'')"
proof -
  have h1: "- 10000000 < sint (5000000 :: Duration)" by simp
  have h2: "sint (5000000 :: Duration) < 10000000" by simp
  have h3: "sint (5000000 :: Duration) < 20000000" by simp
  show ?thesis using h1 h2 h3 createHistogramBuckets_below_10ms_panics[OF h1 h2] by blast
qed

text \<open>
  The rest of the range below 20 milliseconds: for a \<open>maxLatency\<close> whose magnitude is at
  least 10 milliseconds (from 10 ms up to 20 ms, or at most -10 ms), the count is at
  least 3 (exactly 3 from 10 ms up to 20 ms) and the function returns a non-empty
  sequence of that many boundaries.
\<close>

lemma createHistogramBuckets_from_10ms_below_20ms:
  assumes "sint maxLatency < 20000000"
    and "10000000 \<le> sint maxLatency \<or> sint maxLatency \<le> - 10000000"
  shows "3 \<le> bucketCount maxLatency
       \<and> (10000000 \<le> sint maxLatency \<longrightarrow> bucketCount maxLatency = 3)
       \<and> (\<exists>bs. createHistogramBuckets maxLatency = Inr bs \<and> bs \<noteq> []
              \<and> int (length bs) = bucketCount maxLatency)"
proof -
  let ?q = "Milliseconds maxLatency sdiv 10"
  let ?e = "ilogb (nat \<bar>?q\<bar>)"
  have "10000000 \<le> \<bar>sint maxLatency\<bar>" using assms(2) by linarith
  then have "10000000 div 10000000 \<le> \<bar>sint maxLatency\<bar> div 10000000"
    by (rule zdiv_mono1) simp
  then have "1 \<le> \<bar>?q\<bar>" unfolding abs_quotient by simp
  then have nz: "?q \<noteq> 0" by linarith
  have cnt: "bucketCount maxLatency = int ?e + 3" by (rule bucketCount_nonzero[OF nz])
  have three: "bucketCount maxLatency = 3" if "10000000 \<le> sint maxLatency"
  proof -
    have "0 \<le> sint maxLatency" using that by simp
    then have "?q = sint maxLatency div 10000000" by (rule quotient_nonneg)
    also have "\<dots> = 1" using that assms(1) by simp
    finally have "?e = 0" by (simp add: ilogb.simps)
    then show ?thesis using cnt by simp
  qed
  have run: "createHistogramBuckets maxLatency = Inr (buckets_loop (?e + 3) float64_0_005 2)"
    by (rule createHistogramBuckets_nonzero[OF nz])
  have "length (buckets_loop (?e + 3) float64_0_005 2) = ?e + 3" by (rule length_buckets_loop)
  then have "buckets_loop (?e + 3) float64_0_005 2 \<noteq> []"
    and "int (length (buckets_loop (?e + 3) float64_0_005 2)) = bucketCount maxLatency"
    using cnt by auto
  with run cnt three show ?thesis by simp
qed

text \<open>
  Claim C3. For every \<open>maxLatency\<close> of at least 10 milliseconds, \<open>createHistogramBuckets\<close>
  returns \<open>floor (log2 (maxLatencyMillis / 10)) + 3\<close> boundaries, where
  \<open>maxLatencyMillis\<close> is \<open>maxLatency\<close> in whole milliseconds and the division is the exact
  one (the integer division of the code gives the same floor).
\<close>

theorem createHistogramBuckets_length:
  assumes "10000000 \<le> sint maxLatency"
  shows "\<exists>bs. createHistogramBuckets maxLatency = Inr bs
           \<and> int (length bs) = \<lfloor>log 2 (real_of_int (Milliseconds maxLatency) / 10)\<rfloor> + 3"
proof -
  let ?ms = "Milliseconds maxLatency"
  let ?q = "?ms sdiv 10"
  let ?e = "ilogb (nat \<bar>?q\<bar>)"
  have nn: "0 \<le> sint maxLatency" using assms by simp
  have ms: "0 \<le> ?ms" using nn by (simp add: Milliseconds_def signed_divide_int_def sgn_if)
  have q: "?q = ?ms div 10" using ms by (simp add: signed_divide_int_def sgn_if)
  have "1 \<le> ?q" using quotient_ge[of 1 maxLatency] assms by simp
  then have qpos: "0 < ?q" by simp
  then have nz: "?q \<noteq> 0" by simp
  have b: "2 ^ ?e \<le> nat \<bar>?q\<bar>" "nat \<bar>?q\<bar> < 2 ^ Suc ?e"
    using ilogb_bounds[of "nat \<bar>?q\<bar>"] qpos by simp_all
  have lo_int: "2 ^ ?e \<le> ?q" using b(1) qpos by (simp add: le_nat_iff)
  have hi_int: "?q + 1 \<le> 2 ^ Suc ?e" using b(2) qpos by (simp add: nat_less_iff)
  have "10 * ?q \<le> ?ms" unfolding q by simp
  with lo_int have "10 * 2 ^ ?e \<le> ?ms" by linarith
  then have "real_of_int (10 * 2 ^ ?e) \<le> real_of_int ?ms" by (simp only: of_int_le_iff)
  then have lo: "2 ^ ?e \<le> real_of_int ?ms / 10" by simp
  have "?ms < 10 * (?q + 1)" unfolding q using pos_mod_bound[of 10 ?ms]
    by (simp add: minus_mod_eq_mult_div[symmetric])
  also have "\<dots> \<le> 10 * 2 ^ Suc ?e" using hi_int by simp
  finally have "real_of_int ?ms < real_of_int (10 * 2 ^ Suc ?e)" by (simp only: of_int_less_iff)
  then have hi: "real_of_int ?ms / 10 < 2 ^ Suc ?e" by simp
  have fl: "\<lfloor>log 2 (real_of_int ?ms / 10)\<rfloor> = int ?e"
    by (rule floor_log2_between[OF lo hi])
  have "createHistogramBuckets maxLatency = Inr (buckets_loop (?e + 3) float64_0_005 2)"
    by (rule createHistogramBuckets_nonzero[OF nz])
  then show ?thesis by (simp add: length_buckets_loop fl)
qed

theorem createHistogramBuckets_length_witness:
  "10000000 \<le> sint (25000000 :: Duration)
   \<and> (\<exists>bs. createHistogramBuckets 25000000 = Inr bs
          \<and> int (length bs) = \<lfloor>log 2 (real_of_int (Milliseconds 25000000) / 10)\<rfloor> + 3)"
proof -
  have h: "10000000 \<le> sint (25000000 :: Duration)" by simp
  show ?thesis using h createHistogramBuckets_length[OF h] by blast
qed

section \<open>Properties of the service\<close>

subsection \<open>Seconds and the example service\<close>

lemma Seconds_eq: "Seconds d = real_of_int (sint d) / 1000000000"
proof -
  have "sint d sdiv 1000000000 * 1000000000 + sint d smod 1000000000 = sint d"
    by (rule sdiv_mult_smod_eq)
  then have "real_of_int (sint d sdiv 1000000000 * 1000000000 + sint d smod 1000000000)
               = real_of_int (sint d)" by simp
  then show ?thesis by (simp add: Seconds_def field_simps)
qed

lemma ilogb_500: "ilogb 500 = 8"
  by code_simp

lemma ilogb_100: "ilogb 100 = 6"
  by code_simp

lemma makeHistogram_5s:
  "makeHistogram 5000000000
     = Inr \<lparr>Buckets = buckets_loop 11 float64_0_005 2, observations = []\<rparr>"
proof -
  have q: "Milliseconds 5000000000 sdiv 10 = 500"
    by (simp add: Milliseconds_def signed_divide_int_def)
  have "createHistogramBuckets 5000000000 = Inr (buckets_loop 11 float64_0_005 2)"
    using createHistogramBuckets_nonzero[of 5000000000] by (simp add: q ilogb_500)
  then show ?thesis by (simp add: makeHistogram_def)
qed

lemma makeHistogram_1s:
  "makeHistogram 1000000000
     = Inr \<lparr>Buckets = buckets_loop 9 float64_0_005 2, observations = []\<rparr>"
proof -
  have q: "Milliseconds 1000000000 sdiv 10 = 100"
    by (simp add: Milliseconds_def signed_divide_int_def)
  have "createHistogramBuckets 1000000000 = Inr (buckets_loop 9 float64_0_005 2)"
    using createHistogramBuckets_nonzero[of 1000000000] by (simp add: q ilogb_100)
  then show ?thesis by (simp add: makeHistogram_def)
qed

lemma NewService_example: "NewService exampleConfig None ''kminion-1'' = Inr exampleService"
  by (simp add: NewService_def exampleConfig_def exampleService_def
      makeHistogram_5s makeHistogram_1s)

text \<open>
  With the end-to-end test enabled, a service that \<open>NewService\<close> returns has all its
  counters and histograms; with an ack SLA of magnitude below 10 milliseconds
  \<open>NewService\<close> panics instead.
\<close>

lemma NewService_registers_metrics:
  assumes "NewService cfg storageErr uuid = Inr s" "EndToEnd_Enabled cfg"
  shows "endToEndMessagesProduced s = Some 0 \<and> endToEndMessagesAcked s = Some 0
       \<and> endToEndMessagesReceived s = Some 0 \<and> endToEndMessagesCommitted s = Some 0
       \<and> endToEndAckLatency s \<noteq> None \<and> endToEndRoundtripLatency s \<noteq> None
       \<and> endToEndCommitLatency s \<noteq> None"
  using assms by (auto simp: NewService_def Let_def split: option.splits sum.splits)

lemma NewService_panics_below_10ms:
  assumes "EndToEnd_Enabled cfg" "Milliseconds (EndToEnd_Producer_AckSla cfg) sdiv 10 = 0"
  shows "(NewService cfg None uuid :: error + 'v Service)
           = Inl (Panic ''ExponentialBuckets needs a positive count'')"
  using assms by (simp add: NewService_def makeHistogram_def createHistogramBuckets_zero)

lemma ensureCompatibility_metrics:
  assumes "ensureCompatibility versionsRes s = (err, s')"
  shows "EndToEnd_Enabled (Cfg s') = EndToEnd_Enabled (Cfg s)
       \<and> endToEndMessagesAcked s' = endToEndMessagesAcked s
       \<and> endToEndMessagesReceived s' = endToEndMessagesReceived s
       \<and> endToEndMessagesCommitted s' = endToEndMessagesCommitted s
       \<and> endToEndAckLatency s' = endToEndAckLatency s
       \<and> endToEndRoundtripLatency s' = endToEndRoundtripLatency s
       \<and> endToEndCommitLatency s' = endToEndCommitLatency s"
  using assms by (auto simp: ensureCompatibility_def Let_def split: sum.splits if_splits)

lemma fold_delete_metrics:
  "EndToEnd_Enabled (Cfg (fold (\<lambda>g. deleteCachedItem (snd g)) gs s)) = EndToEnd_Enabled (Cfg s)
   \<and> metricsRegistered (fold (\<lambda>g. deleteCachedItem (snd g)) gs s) = metricsRegistered s"
  by (induction gs arbitrary: s) (simp_all add: deleteCachedItem_def metricsRegistered_def)

text \<open>
  In every reachable state of a service with the end-to-end test enabled, the metrics
  are registered: the hypotheses of the three theorems on the callbacks below hold
  wherever the end-to-end test can call them.
\<close>

lemma reachable_metricsRegistered:
  "reachable w \<Longrightarrow> EndToEnd_Enabled (Cfg (svc w)) \<Longrightarrow> metricsRegistered (svc w)"
proof (induction rule: reachable.induct)
  case (reach_new cfg storageErr uuid s)
  then show ?case
    by (auto simp: NewService_def Let_def metricsRegistered_def
        split: option.splits sum.splits if_splits)
next
  case (reach_start w versionsRes mode err s' tasks)
  then obtain e where "ensureCompatibility versionsRes (svc w) = (e, s')"
    by (auto simp: Start_def split: prod.splits option.splits)
  from ensureCompatibility_metrics[OF this] reach_start show ?case
    by (simp add: metricsRegistered_def)
next
  case (reach_compat w versionsRes err s')
  from ensureCompatibility_metrics[OF reach_compat(2)] reach_compat show ?case
    by (simp add: metricsRegistered_def)
next
  case (reach_set w key val timeout)
  then show ?case by (simp add: setCachedItem_def metricsRegistered_def)
next
  case (reach_delete w key)
  then show ?case by (simp add: deleteCachedItem_def metricsRegistered_def)
next
  case (reach_time w t)
  then show ?case by (simp add: advance_def fold_delete_metrics)
next
  case (reach_ack w partitionId duration s')
  then show ?case by (auto simp: onAck_def metricsRegistered_def split: option.splits)
next
  case (reach_roundtrip w partitionId duration s')
  then show ?case
    by (auto simp: onRoundtrip_def metricsRegistered_def split: option.splits if_splits)
next
  case (reach_commit w partitionId duration s')
  then show ?case
    by (auto simp: onOffsetCommit_def Let_def metricsRegistered_def
        split: option.splits if_splits)
qed

subsection \<open>The end-to-end callbacks\<close>

text \<open>
  Claim C6. For every partition id and every duration, \<open>onAck\<close> increments the
  messages-acked counter by one and passes the duration in seconds to the ack-latency
  histogram, whatever \<^verbatim>\<open>AckSla\<close> is: the result does not read the configuration, and no
  other field changes. The counter and the histogram are those that \<open>NewService\<close>
  registered (they are \<^verbatim>\<open>nil\<close>, and the call panics, when the end-to-end test is
  disabled).
\<close>

theorem onAck_unconditional:
  assumes "endToEndMessagesAcked s = Some acked" "endToEndAckLatency s = Some latency"
  shows "onAck s partitionId duration =
    Inr (s\<lparr>endToEndMessagesAcked := Some (acked + 1),
           endToEndAckLatency :=
             Some (latency\<lparr>observations := observations latency @ [Seconds duration]\<rparr>)\<rparr>)"
  using assms by (simp add: onAck_def Inc_def Observe_def)

theorem onAck_unconditional_witness:
  "endToEndMessagesAcked exampleService = Some 0
   \<and> endToEndAckLatency exampleService
       = Some \<lparr>Buckets = buckets_loop 11 float64_0_005 2, observations = []\<rparr>
   \<and> onAck exampleService 0 2000000000 =
       Inr (exampleService\<lparr>endToEndMessagesAcked := Some 1,
              endToEndAckLatency :=
                Some \<lparr>Buckets = buckets_loop 11 float64_0_005 2, observations = [2]\<rparr>\<rparr>)"
proof -
  have a: "endToEndMessagesAcked exampleService = Some 0"
    by (simp add: exampleService_def)
  have b: "endToEndAckLatency exampleService
       = Some \<lparr>Buckets = buckets_loop 11 float64_0_005 2, observations = []\<rparr>"
    by (simp add: exampleService_def)
  have c: "Seconds 2000000000 = 2" by (simp add: Seconds_eq)
  show ?thesis
    using a b onAck_unconditional[OF a b, where partitionId = 0 and duration = 2000000000]
    by (simp add: c)
qed

text \<open>
  Claim C7. For every partition id and every duration: if the duration exceeds
  \<^verbatim>\<open>RoundtripSla\<close>, \<open>onRoundtrip\<close> returns the service as it was, so neither the
  received-messages counter nor the roundtrip histogram is touched; otherwise it
  increments the counter by one and passes the duration in seconds to the histogram,
  and changes nothing else.
\<close>

theorem onRoundtrip_sla:
  "(sint (EndToEnd_Consumer_RoundtripSla (Cfg s)) < sint duration
      \<longrightarrow> onRoundtrip s partitionId duration = Inr s)
   \<and> (\<not> sint (EndToEnd_Consumer_RoundtripSla (Cfg s)) < sint duration
       \<and> endToEndMessagesReceived s = Some received
       \<and> endToEndRoundtripLatency s = Some latency
      \<longrightarrow> onRoundtrip s partitionId duration =
            Inr (s\<lparr>endToEndMessagesReceived := Some (received + 1),
                   endToEndRoundtripLatency :=
                     Some (latency\<lparr>observations :=
                                     observations latency @ [Seconds duration]\<rparr>)\<rparr>))"
  by (simp add: onRoundtrip_def Inc_def Observe_def)

theorem onRoundtrip_sla_witness:
  "sint (EndToEnd_Consumer_RoundtripSla (Cfg exampleService)) < sint (10000000000 :: Duration)
   \<and> onRoundtrip exampleService 0 10000000000 = Inr exampleService
   \<and> \<not> sint (EndToEnd_Consumer_RoundtripSla (Cfg exampleService)) < sint (1000000000 :: Duration)
   \<and> endToEndMessagesReceived exampleService = Some 0
   \<and> endToEndRoundtripLatency exampleService
       = Some \<lparr>Buckets = buckets_loop 11 float64_0_005 2, observations = []\<rparr>
   \<and> onRoundtrip exampleService 0 1000000000 =
       Inr (exampleService\<lparr>endToEndMessagesReceived := Some 1,
              endToEndRoundtripLatency :=
                Some \<lparr>Buckets = buckets_loop 11 float64_0_005 2, observations = [1]\<rparr>\<rparr>)"
proof -
  have sla: "EndToEnd_Consumer_RoundtripSla (Cfg exampleService) = 5000000000"
    by (simp add: exampleService_def exampleConfig_def)
  have late:
    "sint (EndToEnd_Consumer_RoundtripSla (Cfg exampleService)) < sint (10000000000 :: Duration)"
    unfolding sla by simp
  have intime:
    "\<not> sint (EndToEnd_Consumer_RoundtripSla (Cfg exampleService)) < sint (1000000000 :: Duration)"
    unfolding sla by simp
  have r: "endToEndMessagesReceived exampleService = Some 0"
    by (simp add: exampleService_def)
  have h: "endToEndRoundtripLatency exampleService
       = Some \<lparr>Buckets = buckets_loop 11 float64_0_005 2, observations = []\<rparr>"
    by (simp add: exampleService_def)
  have sec: "Seconds 1000000000 = 1" by (simp add: Seconds_eq)
  from onRoundtrip_sla[where s = exampleService and duration = 10000000000 and partitionId = 0]
    late
  have dropped: "onRoundtrip exampleService 0 10000000000 = Inr exampleService" by blast
  from onRoundtrip_sla[where s = exampleService and duration = 1000000000 and partitionId = 0
      and received = 0
      and latency = "\<lparr>Buckets = buckets_loop 11 float64_0_005 2, observations = []\<rparr>"]
    intime r h
  have matched: "onRoundtrip exampleService 0 1000000000 =
       Inr (exampleService\<lparr>endToEndMessagesReceived := Some 1,
              endToEndRoundtripLatency :=
                Some \<lparr>Buckets = buckets_loop 11 float64_0_005 2, observations = [1]\<rparr>\<rparr>)"
    by (simp add: sec)
  from late dropped intime r h matched show ?thesis by blast
qed

text \<open>
  Claim C8. For every partition id and every duration, \<open>onOffsetCommit\<close> passes the
  duration in seconds to the commit-latency histogram whatever the SLA says, and
  increments the messages-committed counter by one if and only if the duration is at
  most \<^verbatim>\<open>CommitSla\<close>; nothing else changes.
\<close>

theorem onOffsetCommit_sla:
  assumes "endToEndCommitLatency s = Some latency"
    and "endToEndMessagesCommitted s = Some committed"
  shows "onOffsetCommit s partitionId duration =
    Inr (s\<lparr>endToEndCommitLatency :=
             Some (latency\<lparr>observations := observations latency @ [Seconds duration]\<rparr>),
           endToEndMessagesCommitted :=
             Some (if sint duration \<le> sint (EndToEnd_Consumer_CommitSla (Cfg s))
                   then committed + 1 else committed)\<rparr>)"
  using assms by (simp add: onOffsetCommit_def Inc_def Observe_def Let_def not_less[symmetric])

theorem onOffsetCommit_sla_witness:
  "endToEndCommitLatency exampleService
       = Some \<lparr>Buckets = buckets_loop 9 float64_0_005 2, observations = []\<rparr>
   \<and> endToEndMessagesCommitted exampleService = Some 0
   \<and> onOffsetCommit exampleService 0 1200000000 =
       Inr (exampleService\<lparr>endToEndCommitLatency :=
              Some \<lparr>Buckets = buckets_loop 9 float64_0_005 2, observations = [6 / 5]\<rparr>,
              endToEndMessagesCommitted := Some 0\<rparr>)
   \<and> onOffsetCommit exampleService 0 800000000 =
       Inr (exampleService\<lparr>endToEndCommitLatency :=
              Some \<lparr>Buckets = buckets_loop 9 float64_0_005 2, observations = [4 / 5]\<rparr>,
              endToEndMessagesCommitted := Some 1\<rparr>)"
proof -
  have h: "endToEndCommitLatency exampleService
       = Some \<lparr>Buckets = buckets_loop 9 float64_0_005 2, observations = []\<rparr>"
    by (simp add: exampleService_def)
  have c: "endToEndMessagesCommitted exampleService = Some 0"
    by (simp add: exampleService_def)
  have sla: "EndToEnd_Consumer_CommitSla (Cfg exampleService) = 1000000000"
    by (simp add: exampleService_def exampleConfig_def)
  have sec: "Seconds 1200000000 = 6 / 5" "Seconds 800000000 = 4 / 5"
    by (simp_all add: Seconds_eq)
  show ?thesis
    using h c onOffsetCommit_sla[OF h c, where partitionId = 0 and duration = 1200000000]
      onOffsetCommit_sla[OF h c, where partitionId = 0 and duration = 800000000]
    by (simp add: sla sec)
qed

subsection \<open>The compatibility check\<close>

text \<open>
  Claim C9. If the API-version query succeeds with a version set that lacks the
  DescribeLogDirs key while \<^verbatim>\<open>LogDirs.Enabled\<close> is true, then \<open>ensureCompatibility\<close>
  returns no error and leaves \<^verbatim>\<open>LogDirs.Enabled\<close> false (and nothing else changed); if
  the query fails, it returns the error wrapped and leaves the service as it was.
\<close>

theorem ensureCompatibility_gate:
  "(\<not> HasKey versions DescribeLogDirs_Key \<and> LogDirs_Enabled (Cfg s)
      \<longrightarrow> ensureCompatibility (Inr versions) s
            = (None, s\<lparr>Cfg := (Cfg s)\<lparr>LogDirs_Enabled := False\<rparr>\<rparr>))
   \<and> ensureCompatibility (Inl err) s
       = (Some (Wrapped ''kafka api versions couldn't be fetched'' err), s)"
  by (simp add: ensureCompatibility_def)

theorem ensureCompatibility_gate_witness:
  "\<not> HasKey [18 \<mapsto> 3] DescribeLogDirs_Key
   \<and> LogDirs_Enabled (Cfg exampleService)
   \<and> ensureCompatibility (Inr [18 \<mapsto> 3]) exampleService
       = (None, exampleService\<lparr>Cfg := (Cfg exampleService)\<lparr>LogDirs_Enabled := False\<rparr>\<rparr>)
   \<and> LogDirs_Enabled (Cfg (snd (ensureCompatibility (Inr [18 \<mapsto> 3]) exampleService))) = False
   \<and> ensureCompatibility (Inl (Error ''context deadline exceeded'')) exampleService
       = (Some (Wrapped ''kafka api versions couldn't be fetched''
                 (Error ''context deadline exceeded'')), exampleService)"
proof -
  have k: "\<not> HasKey [18 \<mapsto> 3] DescribeLogDirs_Key"
    by (simp add: HasKey_def DescribeLogDirs_Key_def)
  have e: "LogDirs_Enabled (Cfg exampleService)"
    by (simp add: exampleService_def exampleConfig_def)
  show ?thesis
    using k e ensureCompatibility_gate[where versions = "[18 \<mapsto> 3]" and s = exampleService
        and err = "Error ''context deadline exceeded''"]
    by simp
qed

subsection \<open>The cache\<close>

lemma cache_deleteCachedItem:
  "cache (deleteCachedItem key s) k = (if k = key then None else cache s k)"
  by (simp add: deleteCachedItem_def)

lemma cache_fold_delete:
  "cache (fold (\<lambda>g. deleteCachedItem (snd g)) gs s) k
     = (if k \<in> snd ` set gs then None else cache s k)"
  by (induction gs arbitrary: s) (auto simp: deleteCachedItem_def)

lemma getCachedItem_setCachedItem:
  "getCachedItem key (svc (setCachedItem key val timeout w)) = Some val"
  by (simp add: getCachedItem_def setCachedItem_def)

text \<open>
  Claim C4 does not hold of the code. A key is set to \<open>v1\<close> with timeout \<open>ttl1\<close> and,
  at a time \<open>t2\<close> before that timeout has elapsed, to \<open>v2\<close> with timeout \<open>ttl2\<close>: \<open>v2\<close> is
  in the cache. At any time \<open>t3\<close> after the first timeout and before the second has
  elapsed, the goroutine of the first call has run \<open>deleteCachedItem\<close>, which deletes by
  key alone, and \<open>getCachedItem\<close> finds nothing.
\<close>

theorem setCachedItem_stale_expiry:
  assumes second_set_before_first_expiry: "now w \<le> t2" "t2 < now w + nat (sint ttl1)"
    and get_after_first_expiry: "now w + nat (sint ttl1) \<le> t3"
    and get_before_second_expiry: "t3 < t2 + nat (sint ttl2)"
  shows "getCachedItem k
           (svc (setCachedItem k v2 ttl2 (advance t2 (setCachedItem k v1 ttl1 w)))) = Some v2
       \<and> getCachedItem k
           (svc (advance t3
                  (setCachedItem k v2 ttl2 (advance t2 (setCachedItem k v1 ttl1 w))))) = None"
proof -
  let ?w1 = "setCachedItem k v1 ttl1 w"
  let ?w2 = "setCachedItem k v2 ttl2 (advance t2 ?w1)"
  have stored: "getCachedItem k (svc ?w2) = Some v2"
    by (rule getCachedItem_setCachedItem)
  have pending: "(now w + nat (sint ttl1), k) \<in> set (sleeping ?w2)"
    using assms(2) by (simp add: setCachedItem_def advance_def)
  then have "(now w + nat (sint ttl1), k) \<in> set (filter (\<lambda>g. fst g \<le> t3) (sleeping ?w2))"
    using assms(3) by simp
  then have "k \<in> snd ` set (filter (\<lambda>g. fst g \<le> t3) (sleeping ?w2))"
    by (rule rev_image_eqI) simp
  then have "cache (svc (advance t3 ?w2)) k = None"
    by (simp add: advance_def cache_fold_delete)
  then have "getCachedItem k (svc (advance t3 ?w2)) = None"
    by (simp add: getCachedItem_def)
  with stored show ?thesis by simp
qed

text \<open>
  The instance with timeouts of 10 and 100 seconds, the second call at 5 seconds and the
  lookup at 20 seconds, starting from the example service.
\<close>

theorem setCachedItem_stale_expiry_witness:
  "now \<lparr>svc = exampleService, now = 0, sleeping = []\<rparr> \<le> 5000000000
   \<and> 5000000000 < now \<lparr>svc = exampleService, now = 0, sleeping = []\<rparr>
                     + nat (sint (10000000000 :: Duration))
   \<and> now \<lparr>svc = exampleService, now = 0, sleeping = []\<rparr>
         + nat (sint (10000000000 :: Duration)) \<le> 20000000000
   \<and> 20000000000 < 5000000000 + nat (sint (100000000000 :: Duration))
   \<and> getCachedItem ''metadata''
        (svc (setCachedItem ''metadata'' ''v2'' 100000000000
               (advance 5000000000
                 (setCachedItem ''metadata'' ''v1'' 10000000000
                   \<lparr>svc = exampleService, now = 0, sleeping = []\<rparr>)))) = Some ''v2''
   \<and> getCachedItem ''metadata''
        (svc (advance 20000000000
               (setCachedItem ''metadata'' ''v2'' 100000000000
                 (advance 5000000000
                   (setCachedItem ''metadata'' ''v1'' 10000000000
                     \<lparr>svc = exampleService, now = 0, sleeping = []\<rparr>))))) = None"
proof -
  let ?w = "\<lparr>svc = exampleService, now = 0, sleeping = []\<rparr>"
  have h1: "now ?w \<le> 5000000000" by simp
  have h2: "5000000000 < now ?w + nat (sint (10000000000 :: Duration))" by simp
  have h3: "now ?w + nat (sint (10000000000 :: Duration)) \<le> 20000000000" by simp
  have h4: "20000000000 < 5000000000 + nat (sint (100000000000 :: Duration))" by simp
  from setCachedItem_stale_expiry[OF h1 h2 h3 h4, where k = "''metadata''"
      and ?v1.0 = "''v1''" and ?v2.0 = "''v2''"]
  show ?thesis using h1 h2 h3 h4 by blast
qed

subsection \<open>The field lastRoundtripTimestamp\<close>

lemma NewService_lastRoundtripTimestamp:
  "NewService cfg storageErr uuid = Inr s \<Longrightarrow> lastRoundtripTimestamp s = 0"
  by (auto simp: NewService_def Let_def split: option.splits sum.splits if_splits)

lemma ensureCompatibility_lastRoundtripTimestamp:
  "ensureCompatibility versionsRes s = (err, s')
   \<Longrightarrow> lastRoundtripTimestamp s' = lastRoundtripTimestamp s"
  by (auto simp: ensureCompatibility_def Let_def split: sum.splits if_splits)

lemma Start_lastRoundtripTimestamp:
  "Start versionsRes mode s = (err, s', tasks)
   \<Longrightarrow> lastRoundtripTimestamp s' = lastRoundtripTimestamp s"
  by (auto simp: Start_def split: prod.splits option.splits
           dest: ensureCompatibility_lastRoundtripTimestamp)

lemma onAck_lastRoundtripTimestamp:
  "onAck s p d = Inr s' \<Longrightarrow> lastRoundtripTimestamp s' = lastRoundtripTimestamp s"
  by (auto simp: onAck_def split: option.splits)

lemma onRoundtrip_lastRoundtripTimestamp:
  "onRoundtrip s p d = Inr s' \<Longrightarrow> lastRoundtripTimestamp s' = lastRoundtripTimestamp s"
  by (auto simp: onRoundtrip_def split: option.splits if_splits)

lemma onOffsetCommit_lastRoundtripTimestamp:
  "onOffsetCommit s p d = Inr s' \<Longrightarrow> lastRoundtripTimestamp s' = lastRoundtripTimestamp s"
  by (auto simp: onOffsetCommit_def Let_def split: option.splits if_splits)

lemma deleteCachedItem_lastRoundtripTimestamp:
  "lastRoundtripTimestamp (deleteCachedItem key s) = lastRoundtripTimestamp s"
  by (simp add: deleteCachedItem_def)

lemma fold_delete_lastRoundtripTimestamp:
  "lastRoundtripTimestamp (fold (\<lambda>g. deleteCachedItem (snd g)) gs s)
     = lastRoundtripTimestamp s"
  by (induction gs arbitrary: s) (simp_all add: deleteCachedItem_lastRoundtripTimestamp)

lemma advance_lastRoundtripTimestamp:
  "lastRoundtripTimestamp (svc (advance t w)) = lastRoundtripTimestamp (svc w)"
  by (simp add: advance_def fold_delete_lastRoundtripTimestamp)

lemma setCachedItem_lastRoundtripTimestamp:
  "lastRoundtripTimestamp (svc (setCachedItem key val timeout w))
     = lastRoundtripTimestamp (svc w)"
  by (simp add: setCachedItem_def)

text \<open>
  Claim C10. \<open>NewService\<close> sets \<open>lastRoundtripTimestamp\<close> to \<open>0\<close> and no function of
  \<^verbatim>\<open>service.go\<close> writes it afterwards: in every reachable state it is \<open>0\<close>, and it is
  still \<open>0\<close> after any \<open>onRoundtrip\<close> from there, also for a message within the SLA.
\<close>

theorem lastRoundtripTimestamp_never_written:
  assumes "reachable w"
  shows "lastRoundtripTimestamp (svc w) = 0
       \<and> (\<forall>partitionId duration s'.
            onRoundtrip (svc w) partitionId duration = Inr s'
            \<longrightarrow> lastRoundtripTimestamp s' = 0)"
proof -
  from assms have inv: "lastRoundtripTimestamp (svc w) = 0"
  proof (induction rule: reachable.induct)
    case (reach_new cfg storageErr uuid s)
    then show ?case by (simp add: NewService_lastRoundtripTimestamp)
  next
    case (reach_start w versionsRes mode err s' tasks)
    then show ?case by (simp add: Start_lastRoundtripTimestamp)
  next
    case (reach_compat w versionsRes err s')
    then show ?case by (simp add: ensureCompatibility_lastRoundtripTimestamp)
  next
    case (reach_set w key val timeout)
    then show ?case by (simp add: setCachedItem_lastRoundtripTimestamp)
  next
    case (reach_delete w key)
    then show ?case by (simp add: deleteCachedItem_lastRoundtripTimestamp)
  next
    case (reach_time w t)
    then show ?case by (simp add: advance_lastRoundtripTimestamp)
  next
    case (reach_ack w partitionId duration s')
    then show ?case by (simp add: onAck_lastRoundtripTimestamp)
  next
    case (reach_roundtrip w partitionId duration s')
    then show ?case by (simp add: onRoundtrip_lastRoundtripTimestamp)
  next
    case (reach_commit w partitionId duration s')
    then show ?case by (simp add: onOffsetCommit_lastRoundtripTimestamp)
  qed
  then show ?thesis by (auto dest: onRoundtrip_lastRoundtripTimestamp)
qed

theorem lastRoundtripTimestamp_never_written_witness:
  "reachable \<lparr>svc = exampleService\<lparr>endToEndMessagesReceived := Some 1,
              endToEndRoundtripLatency :=
                Some \<lparr>Buckets = buckets_loop 11 float64_0_005 2, observations = [1]\<rparr>\<rparr>,
             now = 0, sleeping = []\<rparr>
   \<and> lastRoundtripTimestamp (exampleService\<lparr>endToEndMessagesReceived := Some 1,
              endToEndRoundtripLatency :=
                Some \<lparr>Buckets = buckets_loop 11 float64_0_005 2, observations = [1]\<rparr>\<rparr>) = 0"
proof -
  let ?s1 = "exampleService\<lparr>endToEndMessagesReceived := Some 1,
              endToEndRoundtripLatency :=
                Some \<lparr>Buckets = buckets_loop 11 float64_0_005 2, observations = [1]\<rparr>\<rparr>"
  have r0: "reachable \<lparr>svc = exampleService, now = 0, sleeping = []\<rparr>"
    by (rule reach_new[OF NewService_example])
  have step:
    "onRoundtrip (svc \<lparr>svc = exampleService, now = 0, sleeping = []\<rparr>) 0 1000000000 = Inr ?s1"
    by (simp add: onRoundtrip_def Inc_def Observe_def Seconds_eq
        exampleService_def exampleConfig_def)
  have r1: "reachable \<lparr>svc = ?s1, now = 0, sleeping = []\<rparr>"
    using reach_roundtrip[OF r0 step] by simp
  show ?thesis using r1 lastRoundtripTimestamp_never_written[OF r1] by simp
qed

end
